theory Spec2Isabelle
  imports Main "HOL-Library.Sublist"
begin

section \<open>JavaScript strings and the array helpers the components use\<close>

text \<open>
  A JavaScript string is a sequence of UTF-16 code units; a code unit is modelled as a
  natural number. \<open>js\<close> turns an ASCII literal of the source into its code units.
\<close>

type_synonym jsstring = "nat list"

definition js :: "string \<Rightarrow> jsstring" where
  "js s = map of_char s"

text \<open>
  \<open>String.prototype.startsWith(searchString)\<close> with the default position 0: false when
  the search string is longer than the receiver, otherwise the receiver's first code units
  are compared with the search string.
\<close>

definition startsWith :: "'a list \<Rightarrow> 'a list \<Rightarrow> bool" where
  "startsWith s search =
     (if length s < length search then False else take (length search) s = search)"

text \<open>
  \<open>String.prototype.includes(searchString)\<close> (named \<open>includes_js\<close> here): the
  search string occurs at some index of the receiver.
\<close>

fun includes_js :: "'a list \<Rightarrow> 'a list \<Rightarrow> bool" where
  "includes_js [] search = (search = [])"
| "includes_js (c # cs) search = (startsWith (c # cs) search \<or> includes_js cs search)"

text \<open>\<open>Array.prototype.some\<close>: left to right, stopping at the first hit.\<close>

fun some :: "('a \<Rightarrow> bool) \<Rightarrow> 'a list \<Rightarrow> bool" where
  "some f [] = False"
| "some f (x # xs) = (if f x then True else some f xs)"

text \<open>
  \<open>String.prototype.trim\<close> removes the ECMAScript white space and line terminator code
  units from both ends.
\<close>

definition is_white_space :: "nat \<Rightarrow> bool" where
  "is_white_space c =
     (c = 9 \<or> c = 10 \<or> c = 11 \<or> c = 12 \<or> c = 13 \<or> c = 32 \<or> c = 160 \<or> c = 5760
      \<or> (8192 \<le> c \<and> c \<le> 8202) \<or> c = 8232 \<or> c = 8233 \<or> c = 8239 \<or> c = 8287
      \<or> c = 12288 \<or> c = 65279)"

definition trim :: "jsstring \<Rightarrow> jsstring" where
  "trim s = rev (dropWhile is_white_space (rev (dropWhile is_white_space s)))"

section \<open>Route visibility\<close>

text \<open>
  Both components compute
  \<^verbatim>\<open>hideOnRoutes.some(route => location.pathname.startsWith(route))\<close>.
\<close>

definition shouldHide :: "jsstring list \<Rightarrow> jsstring \<Rightarrow> bool" where
  "shouldHide hideOnRoutes pathname = some (\<lambda>route. startsWith pathname route) hideOnRoutes"

section \<open>The local conversation engine (VeeyaaChatbot.jsx)\<close>

datatype sender = User | Bot

record message =
  msg_id :: nat
  msg_text :: jsstring
  msg_sender :: sender
  msg_timestamp :: nat

text \<open>
  A pending \<open>setTimeout\<close> of the engine: when it fires and the value its callback closed
  over (the id of the bot message, \<open>messages.length + 2\<close> at the time of the send).
\<close>

record reply_timer =
  fires_at :: nat
  bot_id :: nat

datatype engine_event = SinkCalled jsstring | TimeoutScheduled nat | CallbackRan nat

text \<open>
  One mounted instance of the component with the part of the host it touches: the four
  \<open>useState\<close> cells, the host clock read by \<open>new Date()\<close> (milliseconds), the host's
  queue of pending timeouts, the arguments \<open>onMessage\<close> was called with, and the order in
  which the outward effects happened.
\<close>

record engine =
  mounted :: bool
  isOpen :: bool
  messages :: "message list"
  inputValue :: jsstring
  isTyping :: bool
  clock :: nat
  pending :: "reply_timer list"
  sink :: "jsstring list"
  events :: "engine_event list"

text \<open>
  The state setters of React: an update requested for an instance that has been unmounted
  is discarded.
\<close>

definition setIsOpen :: "bool \<Rightarrow> engine \<Rightarrow> engine" where
  "setIsOpen v e = (if mounted e then e\<lparr>isOpen := v\<rparr> else e)"

definition setMessages :: "(message list \<Rightarrow> message list) \<Rightarrow> engine \<Rightarrow> engine" where
  "setMessages f e = (if mounted e then e\<lparr>messages := f (messages e)\<rparr> else e)"

definition setInputValue :: "jsstring \<Rightarrow> engine \<Rightarrow> engine" where
  "setInputValue v e = (if mounted e then e\<lparr>inputValue := v\<rparr> else e)"

definition setIsTyping :: "bool \<Rightarrow> engine \<Rightarrow> engine" where
  "setIsTyping v e = (if mounted e then e\<lparr>isTyping := v\<rparr> else e)"

definition welcome_text :: jsstring where
  "welcome_text = js ''Hello! How can I help you today?''"

definition reply_text :: jsstring where
  "reply_text = js ''Thank you for your message! Our team will get back to you soon.''"

text \<open>
  Mounting: the initial values of the state cells, then the effect that seeds the welcome
  message when the sequence is empty.
\<close>

definition mount :: "nat \<Rightarrow> engine" where
  "mount now =
     (let e = \<lparr>mounted = True, isOpen = False, messages = [], inputValue = [],
                isTyping = False, clock = now, pending = [], sink = [], events = []\<rparr>
      in if length (messages e) = 0
         then setMessages (\<lambda>_. [\<lparr>msg_id = 1, msg_text = welcome_text, msg_sender = Bot,
                                   msg_timestamp = clock e\<rparr>]) e
         else e)"

text \<open>The effect on \<open>[shouldHide, isOpen]\<close> and the toggle button.\<close>

definition close_when_hidden :: "jsstring list \<Rightarrow> jsstring \<Rightarrow> engine \<Rightarrow> engine" where
  "close_when_hidden hideOnRoutes pathname e =
     (if shouldHide hideOnRoutes pathname \<and> isOpen e then setIsOpen False e else e)"

definition toggleChat :: "engine \<Rightarrow> engine" where
  "toggleChat e = setIsOpen (\<not> isOpen e) e"

text \<open>
  \<open>setTimeout(callback, ms)\<close>: the callback joins the host's queue, due \<open>ms\<close> after now.
  The source keeps no handle of it.
\<close>

definition setTimeout :: "nat \<Rightarrow> nat \<Rightarrow> engine \<Rightarrow> engine" where
  "setTimeout bid ms e =
     e\<lparr>pending := pending e @ [\<lparr>fires_at = clock e + ms, bot_id = bid\<rparr>],
       events := events e @ [TimeoutScheduled ms]\<rparr>"

text \<open>
  \<open>handleSendMessage\<close>. The flag says whether the \<open>onMessage\<close> prop was supplied; a call
  of it is recorded in \<open>sink\<close> and in \<open>events\<close>.
\<close>

definition handleSendMessage :: "bool \<Rightarrow> engine \<Rightarrow> engine" where
  "handleSendMessage onMessage e =
     (if trim (inputValue e) = [] \<or> isTyping e then e
      else
        let userMessage = \<lparr>msg_id = length (messages e) + 1, msg_text = trim (inputValue e),
                            msg_sender = User, msg_timestamp = clock e\<rparr>;
            e1 = setMessages (\<lambda>prev. prev @ [userMessage]) e;
            e2 = setInputValue [] e1;
            e3 = setIsTyping True e2;
            e4 = (if onMessage
                  then e3\<lparr>sink := sink e3 @ [msg_text userMessage],
                          events := events e3 @ [SinkCalled (msg_text userMessage)]\<rparr>
                  else e3)
        in setTimeout (length (messages e) + 2) 1000 e4)"

text \<open>The callback of that timeout, run by the host when the timer fires.\<close>

definition bot_reply :: "nat \<Rightarrow> engine \<Rightarrow> engine" where
  "bot_reply bid e =
     (let botMessage = \<lparr>msg_id = bid, msg_text = reply_text, msg_sender = Bot,
                          msg_timestamp = clock e\<rparr>;
          e1 = e\<lparr>events := events e @ [CallbackRan bid]\<rparr>;
          e2 = setMessages (\<lambda>prev. prev @ [botMessage]) e1
      in setIsTyping False e2)"

text \<open>
  The host's event loop over a span of \<open>d\<close> milliseconds: every timeout that is due by
  then leaves the queue and runs, in the order of scheduling (all delays are equal, so
  this is the order in which they fall due), at its due time.
\<close>

definition run_timer :: "reply_timer \<Rightarrow> engine \<Rightarrow> engine" where
  "run_timer t e = bot_reply (bot_id t) (e\<lparr>clock := max (clock e) (fires_at t)\<rparr>)"

definition elapse :: "nat \<Rightarrow> engine \<Rightarrow> engine" where
  "elapse d e =
     (let target = clock e + d;
          due = filter (\<lambda>t. fires_at t \<le> target) (pending e);
          later = filter (\<lambda>t. \<not> fires_at t \<le> target) (pending e)
      in (fold run_timer due (e\<lparr>pending := later\<rparr>))\<lparr>clock := target\<rparr>)"

text \<open>
  Unmounting. None of the component's three effects returns a cleanup function, so React
  has nothing of the component's to run: the instance is marked unmounted and the host's
  timer queue is left as it is.
\<close>

definition unmount :: "engine \<Rightarrow> engine" where
  "unmount e = e\<lparr>mounted := False\<rparr>"

text \<open>
  The states a mounted engine can be in: it is mounted, and then the user types, sends,
  toggles the panel or navigates, or time passes.
\<close>

inductive reachable :: "engine \<Rightarrow> bool" where
  mounted: "reachable (mount now)"
| typed: "reachable e \<Longrightarrow> reachable (setInputValue v e)"
| sent: "reachable e \<Longrightarrow> reachable (handleSendMessage onMessage e)"
| toggled: "reachable e \<Longrightarrow> reachable (toggleChat e)"
| navigated: "reachable e \<Longrightarrow> reachable (close_when_hidden routes pathname e)"
| waited: "reachable e \<Longrightarrow> reachable (elapse d e)"

text \<open>
  Concrete engines used to exercise the theorems: freshly mounted at time 5 with
  \<open>" Hello "\<close> typed; with only blanks typed; and with a second draft typed while the
  reply to the first is still outstanding.
\<close>

definition hello_engine :: engine where
  "hello_engine = setInputValue (js '' Hello '') (mount 5)"

definition blank_engine :: engine where
  "blank_engine = setInputValue (js ''   '') (mount 5)"

definition busy_engine :: engine where
  "busy_engine = setInputValue (js ''again'') (handleSendMessage True hello_engine)"

section \<open>The external widget controller and its error containment (TawkChatbot.jsx)\<close>

subsection \<open>The page as the component sees it\<close>

text \<open>
  A property of \<open>window.Tawk_API\<close> that the component calls: missing, a function that
  returns, or a function that throws.
\<close>

datatype entry_point = Absent | Present | Throwing

datatype api_call = HideWidget | ShowWidget | SetAttributes bool bool

text \<open>
  The object behind \<open>window.Tawk_API\<close>: the three entry points, whether the
  \<open>onStatusChange\<close> slot holds something truthy, whether the component has replaced it
  by its function that returns false, the calls received so far, and the number of
  \<open>Proxy\<close> wrappers around the object.
\<close>

record tawk_api =
  hideWidget :: entry_point
  showWidget :: entry_point
  setAttributes :: entry_point
  onStatusChange :: bool
  status_silenced :: bool
  api_calls :: "api_call list"
  proxy_layers :: nat

definition empty_object :: tawk_api where
  "empty_object = \<lparr>hideWidget = Absent, showWidget = Absent, setAttributes = Absent,
     onStatusChange = False, status_silenced = False, api_calls = [], proxy_layers = 0\<rparr>"

datatype warning =
    HideFailed | ShowFailed | ScriptLoadFailed
  | ErrorPrevented jsstring | RejectionPrevented

text \<open>
  The arguments of a call of \<open>window.onerror\<close>. An absent or empty \<open>msg\<close> or \<open>url\<close> is
  the empty string: both are falsy and take the same branches.
\<close>

record error_report =
  err_msg :: jsstring
  err_url :: jsstring
  err_line :: nat
  err_col :: nat

text \<open>
  The value of \<open>window.onerror\<close>: nothing, a handler of the host page (its verdict on a
  report), or the function that \<open>setupErrorHandling\<close> creates, which closes over the
  value it replaced.
\<close>

datatype handler = NoHandler | HostHandler "error_report \<Rightarrow> bool" | TawkHandler handler

datatype observation = HostHandlerCalled error_report | Warned warning

datatype event_type = ErrorEvent | UnhandledRejection

datatype listener = TawkErrorListener | TawkRejectionListener

record error_event =
  ev_message :: jsstring
  ev_filename :: jsstring

text \<open>
  The \<open>reason\<close> of an unhandled rejection, when it is truthy: its \<open>message\<close> and its
  \<open>stack\<close>, each the empty string when absent.
\<close>

record rejection_reason =
  reason_message :: jsstring
  reason_stack :: jsstring

text \<open>What a listener did to the event it received, and what it wrote to the console.\<close>

record outcome =
  defaultPrevented :: bool
  propagationStopped :: bool
  warned :: "warning list"

definition untouched :: outcome where
  "untouched = \<lparr>defaultPrevented = False, propagationStopped = False, warned = []\<rparr>"

text \<open>
  What a timer runs: the show/hide reconciliation with the values of \<open>shouldHide\<close> and
  \<open>enableTitleProtection\<close> it closed over, or the title check with the title it closed
  over.
\<close>

datatype task = Reconcile bool bool | TitleCheck jsstring

record timer =
  timer_id :: nat
  due :: nat
  period :: "nat option"
  task :: task

text \<open>
  The injected script element: its \<open>src\<close> and what its \<open>onload\<close> and \<open>onerror\<close>
  closed over. Its constant attributes (\<open>async\<close>, \<open>charset\<close>, \<open>crossorigin\<close>) are left
  out.
\<close>

record script =
  src :: jsstring
  captured_hide :: bool
  captured_protect :: bool
  has_onLoad :: bool
  has_onError :: bool

datatype callback_call = OnLoadCalled | OnErrorCalled

datatype action = ErrorHandlingInstalled | LoadStartSet nat | ScriptInjected jsstring

text \<open>
  The process-wide state: the two globals of the widget, the global error handler and the
  listeners on \<open>window\<close>, the scripts appended to \<open>document.head\<close>, \<open>document.title\<close>,
  the clock in milliseconds, the timer queue with the number of timers created so far, the
  console, the calls of the \<open>onLoad\<close> and \<open>onError\<close> props, and the order of the load
  side effects.
\<close>

record window =
  Tawk_API :: "tawk_api option"
  Tawk_LoadStart :: "nat option"
  onerror :: handler
  listeners :: "(event_type \<times> listener) list"
  head_scripts :: "script list"
  title :: jsstring
  time_ms :: nat
  timers :: "timer list"
  timers_created :: nat
  console :: "warning list"
  callbacks :: "callback_call list"
  trace :: "action list"

definition fresh_window :: window where
  "fresh_window = \<lparr>Tawk_API = None, Tawk_LoadStart = None, onerror = NoHandler,
     listeners = [], head_scripts = [], title = js ''Home'', time_ms = 0, timers = [],
     timers_created = 0, console = [], callbacks = [], trace = []\<rparr>"

record props =
  propertyId :: jsstring
  widgetId :: jsstring
  hideOnRoutes :: "jsstring list"
  enableErrorHandling :: bool
  enableTitleProtection :: bool
  onLoad :: bool
  onError :: bool

subsection \<open>Timers\<close>

text \<open>
  \<open>setTimeout\<close> and \<open>setInterval\<close> of the page return a handle greater than zero;
  \<open>clearInterval\<close> removes the timer with that handle from the queue.
\<close>

definition window_setTimeout :: "task \<Rightarrow> nat \<Rightarrow> window \<Rightarrow> window \<times> nat" where
  "window_setTimeout t ms w =
     (let h = Suc (timers_created w)
      in (w\<lparr>timers := timers w @ [\<lparr>timer_id = h, due = time_ms w + ms, period = None,
                                     task = t\<rparr>],
            timers_created := h\<rparr>, h))"

definition setInterval :: "task \<Rightarrow> nat \<Rightarrow> window \<Rightarrow> window \<times> nat" where
  "setInterval t ms w =
     (let h = Suc (timers_created w)
      in (w\<lparr>timers := timers w @ [\<lparr>timer_id = h, due = time_ms w + ms, period = Some ms,
                                     task = t\<rparr>],
            timers_created := h\<rparr>, h))"

definition clearInterval :: "nat \<Rightarrow> window \<Rightarrow> window" where
  "clearInterval h w = w\<lparr>timers := filter (\<lambda>t. timer_id t \<noteq> h) (timers w)\<rparr>"

subsection \<open>Showing and hiding\<close>

definition console_warn :: "warning \<Rightarrow> window \<Rightarrow> window" where
  "console_warn x w = w\<lparr>console := console w @ [x]\<rparr>"

text \<open>
  A guarded call \<open>if (api.m) api.m(...)\<close> inside a \<open>try\<close>: \<open>None\<close> when the call threw.
\<close>

definition guarded_call :: "entry_point \<Rightarrow> api_call \<Rightarrow> tawk_api \<Rightarrow> tawk_api option" where
  "guarded_call m c a =
     (case m of
        Absent \<Rightarrow> Some a
      | Present \<Rightarrow> Some (a\<lparr>api_calls := api_calls a @ [c]\<rparr>)
      | Throwing \<Rightarrow> None)"

definition hideChatbot :: "bool \<Rightarrow> window \<Rightarrow> window" where
  "hideChatbot protect w =
     (case Tawk_API w of
        None \<Rightarrow> w
      | Some a \<Rightarrow>
          (case guarded_call (hideWidget a) HideWidget a of
             None \<Rightarrow> console_warn HideFailed w
           | Some a1 \<Rightarrow>
               (case guarded_call (setAttributes a1) (SetAttributes True True) a1 of
                  None \<Rightarrow> console_warn HideFailed (w\<lparr>Tawk_API := Some a1\<rparr>)
                | Some a2 \<Rightarrow>
                    w\<lparr>Tawk_API :=
                        Some (if protect \<and> onStatusChange a2
                              then a2\<lparr>status_silenced := True\<rparr> else a2)\<rparr>)))"

definition showChatbot :: "window \<Rightarrow> window" where
  "showChatbot w =
     (case Tawk_API w of
        None \<Rightarrow> w
      | Some a \<Rightarrow>
          (case guarded_call (showWidget a) ShowWidget a of
             None \<Rightarrow> console_warn ShowFailed w
           | Some a1 \<Rightarrow>
               (case guarded_call (setAttributes a1) (SetAttributes False False) a1 of
                  None \<Rightarrow> console_warn ShowFailed (w\<lparr>Tawk_API := Some a1\<rparr>)
                | Some a2 \<Rightarrow> w\<lparr>Tawk_API := Some a2\<rparr>)))"

subsection \<open>The title watchdog\<close>

text \<open>
  \<open>document.title.match(/\(\d+\)/)\<close>: somewhere in the title an opening parenthesis
  (code unit 40), one or more of the digits 0 to 9 (48 to 57) and a closing parenthesis
  (41). \<open>count_here\<close> tries the pattern at the start of the string; the digits are taken
  greedily, which loses no match because the closing parenthesis is not a digit.
\<close>

definition is_digit :: "nat \<Rightarrow> bool" where
  "is_digit c = (48 \<le> c \<and> c \<le> 57)"

definition count_here :: "jsstring \<Rightarrow> bool" where
  "count_here s =
     (case s of
        [] \<Rightarrow> False
      | c # rest \<Rightarrow>
          c = 40 \<and> takeWhile is_digit rest \<noteq> []
          \<and> (case dropWhile is_digit rest of [] \<Rightarrow> False | d # _ \<Rightarrow> d = 41))"

fun matches_count :: "jsstring \<Rightarrow> bool" where
  "matches_count [] = False"
| "matches_count (c # cs) = (count_here (c # cs) \<or> matches_count cs)"

text \<open>The body of the \<open>setInterval\<close> callback.\<close>

definition title_check :: "jsstring \<Rightarrow> window \<Rightarrow> window" where
  "title_check originalTitle w =
     (if title w \<noteq> originalTitle
      then (if includes_js (title w) (js ''new message'') \<or> matches_count (title w)
            then w\<lparr>title := originalTitle\<rparr> else w)
      else w)"

subsection \<open>The error containment\<close>

text \<open>
  Calling the value of \<open>window.onerror\<close> with a report: the verdict (true suppresses the
  browser's default handling) and what could be observed, the host handler being called
  or a warning on the console.
\<close>

fun call_onerror :: "handler \<Rightarrow> error_report \<Rightarrow> bool \<times> observation list" where
  "call_onerror NoHandler r = (False, [])"
| "call_onerror (HostHandler f) r = (f r, [HostHandlerCalled r])"
| "call_onerror (TawkHandler originalErrorHandler) r =
     (if (err_msg r \<noteq> []
          \<and> (includes_js (err_msg r) (js ''Tawk'') \<or> includes_js (err_msg r) (js ''i18next'')
             \<or> includes_js (err_msg r) (js ''$_Tawk'')
             \<or> includes_js (err_msg r) (js ''is not a function'')))
         \<or> (err_url r \<noteq> [] \<and> includes_js (err_url r) (js ''tawk''))
      then (True, [Warned (ErrorPrevented (err_msg r))])
      else (case originalErrorHandler of
              NoHandler \<Rightarrow> (False, [])
            | _ \<Rightarrow> call_onerror originalErrorHandler r))"

text \<open>The capturing listener for \<open>error\<close> events.\<close>

definition error_listener :: "error_event \<Rightarrow> outcome \<Rightarrow> outcome" where
  "error_listener e out =
     (if (ev_message e \<noteq> []
          \<and> (includes_js (ev_message e) (js ''Tawk'')
             \<or> includes_js (ev_message e) (js ''i18next'')
             \<or> includes_js (ev_message e) (js ''$_Tawk'')
             \<or> includes_js (ev_message e) (js ''is not a function'')))
         \<or> (ev_filename e \<noteq> [] \<and> includes_js (ev_filename e) (js ''tawk''))
      then out\<lparr>defaultPrevented := True, propagationStopped := True,
               warned := warned out @ [ErrorPrevented (ev_message e)]\<rparr>
      else out)"

text \<open>
  The listener for \<open>unhandledrejection\<close> events; the argument is \<open>e.reason\<close>, \<open>None\<close>
  when it is falsy.
\<close>

definition rejection_listener :: "rejection_reason option \<Rightarrow> outcome \<Rightarrow> outcome" where
  "rejection_listener reason out =
     (case reason of
        None \<Rightarrow> out
      | Some r \<Rightarrow>
          if (reason_message r \<noteq> []
              \<and> (includes_js (reason_message r) (js ''Tawk'')
                 \<or> includes_js (reason_message r) (js ''i18next'')
                 \<or> includes_js (reason_message r) (js ''$_Tawk'')))
             \<or> (reason_stack r \<noteq> [] \<and> includes_js (reason_stack r) (js ''tawk''))
          then out\<lparr>defaultPrevented := True, warned := warned out @ [RejectionPrevented]\<rparr>
          else out)"

text \<open>
  Dispatching an event at \<open>window\<close>: every listener registered for its type runs, in the
  order of registration (\<open>stopPropagation\<close> does not keep the other listeners of the same
  target from running).
\<close>

fun dispatch_error :: "(event_type \<times> listener) list \<Rightarrow> error_event \<Rightarrow> outcome \<Rightarrow> outcome" where
  "dispatch_error [] e out = out"
| "dispatch_error ((ty, l) # ls) e out =
     dispatch_error ls e
       (if ty = ErrorEvent \<and> l = TawkErrorListener then error_listener e out else out)"

fun dispatch_rejection ::
  "(event_type \<times> listener) list \<Rightarrow> rejection_reason option \<Rightarrow> outcome \<Rightarrow> outcome" where
  "dispatch_rejection [] r out = out"
| "dispatch_rejection ((ty, l) # ls) r out =
     dispatch_rejection ls r
       (if ty = UnhandledRejection \<and> l = TawkRejectionListener
        then rejection_listener r out else out)"

text \<open>
  \<open>setupErrorHandling\<close>. Every call creates new function objects, so \<open>addEventListener\<close>
  never recognises a listener as already registered. When \<open>window.Tawk_API\<close> is
  undefined it becomes an empty object first; then the object is wrapped in a \<open>Proxy\<close>,
  whose \<open>get\<close> trap matters only when reading a property throws.
\<close>

definition setupErrorHandling :: "window \<Rightarrow> window" where
  "setupErrorHandling w =
     (let originalErrorHandler = onerror w;
          w1 = w\<lparr>onerror := TawkHandler originalErrorHandler\<rparr>;
          w2 = w1\<lparr>listeners := listeners w1 @ [(ErrorEvent, TawkErrorListener)]\<rparr>;
          w3 = w2\<lparr>listeners := listeners w2 @ [(UnhandledRejection, TawkRejectionListener)]\<rparr>;
          originalTawkAPI = (case Tawk_API w3 of None \<Rightarrow> empty_object | Some a \<Rightarrow> a)
      in w3\<lparr>Tawk_API :=
              Some (originalTawkAPI\<lparr>proxy_layers := Suc (proxy_layers originalTawkAPI)\<rparr>),
            trace := trace w3 @ [ErrorHandlingInstalled]\<rparr>)"

subsection \<open>The effect of the component and its cleanup\<close>

definition script_url :: "props \<Rightarrow> jsstring" where
  "script_url p = js ''https://embed.tawk.to/'' @ propertyId p @ js ''/'' @ widgetId p"

text \<open>
  The body of the \<open>useEffect\<close>, run with the current \<open>location.pathname\<close>; the second
  component of the result is \<open>titleCheckInterval\<close>, which the returned cleanup closes
  over (\<open>None\<close> for undefined).
\<close>

definition tawk_effect :: "props \<Rightarrow> jsstring \<Rightarrow> window \<Rightarrow> window \<times> nat option" where
  "tawk_effect p pathname w =
     (let hide = shouldHide (hideOnRoutes p) pathname;
          w_loaded =
            (if Tawk_API w = None \<or> Tawk_LoadStart w = None
             then
               let w1 = (if enableErrorHandling p then setupErrorHandling w else w);
                   w2 = w1\<lparr>Tawk_API := Some (case Tawk_API w1 of Some a \<Rightarrow> a
                                                | None \<Rightarrow> empty_object)\<rparr>;
                   w3 = w2\<lparr>Tawk_LoadStart := Some (time_ms w2),
                           trace := trace w2 @ [LoadStartSet (time_ms w2)]\<rparr>;
                   el = \<lparr>src = script_url p, captured_hide = hide,
                          captured_protect = enableTitleProtection p,
                          has_onLoad = onLoad p, has_onError = onError p\<rparr>
               in w3\<lparr>head_scripts := head_scripts w3 @ [el],
                     trace := trace w3 @ [ScriptInjected (src el)]\<rparr>
             else fst (window_setTimeout (Reconcile hide (enableTitleProtection p)) 100 w))
      in if enableTitleProtection p \<and> hide
         then (let (w', h) = setInterval (TitleCheck (title w_loaded)) 500 w_loaded
               in (w', Some h))
         else (w_loaded, None))"

definition cleanup :: "nat option \<Rightarrow> window \<Rightarrow> window" where
  "cleanup titleCheckInterval w =
     (case titleCheckInterval of
        None \<Rightarrow> w
      | Some h \<Rightarrow> if h \<noteq> 0 then clearInterval h w else w)"



subsection \<open>What the page does later\<close>

text \<open>The \<open>onload\<close> and \<open>onerror\<close> functions of the injected script.\<close>

definition script_onload :: "script \<Rightarrow> window \<Rightarrow> window" where
  "script_onload el w =
     (let w1 = (if has_onLoad el then w\<lparr>callbacks := callbacks w @ [OnLoadCalled]\<rparr> else w)
      in fst (window_setTimeout (Reconcile (captured_hide el) (captured_protect el)) 500 w1))"

definition script_onerror :: "script \<Rightarrow> window \<Rightarrow> window" where
  "script_onerror el w =
     (let w1 = console_warn ScriptLoadFailed w
      in if has_onError el then w1\<lparr>callbacks := callbacks w1 @ [OnErrorCalled]\<rparr> else w1)"

definition run_task :: "task \<Rightarrow> window \<Rightarrow> window" where
  "run_task t w =
     (case t of
        Reconcile hide protect \<Rightarrow> if hide then hideChatbot protect w else showChatbot w
      | TitleCheck originalTitle \<Rightarrow> title_check originalTitle w)"

text \<open>
  The event loop fires the timer with handle \<open>h\<close>: nothing happens when no such timer is
  queued (it was cleared, or it was a timeout that has fired); otherwise the clock is at
  its due time or later, its task runs, and it leaves the queue, or stays with its next
  due time when it is an interval.
\<close>

definition fire :: "nat \<Rightarrow> window \<Rightarrow> window" where
  "fire h w =
     (case filter (\<lambda>t. timer_id t = h) (timers w) of
        [] \<Rightarrow> w
      | t # _ \<Rightarrow>
          let w1 = run_task (task t) (w\<lparr>time_ms := max (time_ms w) (due t)\<rparr>)
          in w1\<lparr>timers :=
                  (case period t of
                     None \<Rightarrow> filter (\<lambda>x. timer_id x \<noteq> h) (timers w1)
                   | Some ms \<Rightarrow>
                       map (\<lambda>x. if timer_id x = h then x\<lparr>due := due x + ms\<rparr> else x)
                         (timers w1))\<rparr>)"

text \<open>
  What can happen on the page after a run of the effect: another run of the effect (of
  this instance or of another one), a cleanup, a timer firing, the injected script loading
  or failing, a script setting the title, the clock moving.
\<close>

datatype page_event =
    EffectRun props jsstring | CleanupRun "nat option" | TimerFired nat
  | ScriptLoaded script | ScriptFailed script | TitleSet jsstring | ClockSet nat

fun page_step :: "page_event \<Rightarrow> window \<Rightarrow> window" where
  "page_step (EffectRun p pathname) w = fst (tawk_effect p pathname w)"
| "page_step (CleanupRun h) w = cleanup h w"
| "page_step (TimerFired h) w = fire h w"
| "page_step (ScriptLoaded el) w = script_onload el w"
| "page_step (ScriptFailed el) w = script_onerror el w"
| "page_step (TitleSet t) w = w\<lparr>title := t\<rparr>"
| "page_step (ClockSet t) w = w\<lparr>time_ms := t\<rparr>"

text \<open>
  Concrete inputs used to exercise the theorems about the widget controller: the props of
  the documentation's example, props of a second mount with other identifiers, a report
  of an error of the host page and one of the widget, and two handlers a host page may
  have installed, one that returns true for every report and one that returns false.
\<close>

definition example_props :: props where
  "example_props = \<lparr>propertyId = js ''69401d325921b4197ee500f1'', widgetId = js ''1jch7cecr'',
     hideOnRoutes = [js ''/customer''], enableErrorHandling = True,
     enableTitleProtection = True, onLoad = False, onError = False\<rparr>"

definition other_props :: props where
  "other_props = \<lparr>propertyId = js ''abc'', widgetId = js ''xyz'',
     hideOnRoutes = [js ''/admin''], enableErrorHandling = True,
     enableTitleProtection = False, onLoad = True, onError = True\<rparr>"

definition host_error :: error_report where
  "host_error = \<lparr>err_msg = js ''Uncaught ReferenceError: cart is not defined'',
     err_url = js ''https://shop.example/app.js'', err_line = 10, err_col = 5\<rparr>"

definition widget_error :: error_report where
  "widget_error = \<lparr>err_msg = js ''Uncaught TypeError: t.init is not a function'',
     err_url = js ''https://shop.example/app.js'', err_line = 1, err_col = 1\<rparr>"

definition silencing_handler :: handler where
  "silencing_handler = HostHandler (\<lambda>r. True)"

definition declining_handler :: handler where
  "declining_handler = HostHandler (\<lambda>r. False)"

section \<open>Facts about the helpers\<close>

lemma startsWith_iff_prefix: "startsWith s search \<longleftrightarrow> prefix search s"
proof
  assume "startsWith s search"
  then have "take (length search) s = search"
    by (simp add: startsWith_def split: if_splits)
  then show "prefix search s"
    by (metis take_is_prefix)
next
  assume "prefix search s"
  then obtain rest where "s = search @ rest"
    by (auto simp: prefix_def)
  then show "startsWith s search"
    by (simp add: startsWith_def)
qed

lemma some_iff_ex: "some f xs \<longleftrightarrow> (\<exists>x \<in> set xs. f x)"
  by (induction xs) auto

lemma startsWith_empty_search: "startsWith s []"
  by (simp add: startsWith_def)

lemma includes_iff_infix: "includes_js s search \<longleftrightarrow> (\<exists>before after. s = before @ search @ after)"
proof (induction s)
  case Nil
  show ?case by auto
next
  case (Cons c cs)
  show ?case
  proof
    assume "includes_js (c # cs) search"
    then consider "startsWith (c # cs) search" | "includes_js cs search"
      by auto
    then show "\<exists>before after. c # cs = before @ search @ after"
    proof cases
      case 1
      then obtain rest where "c # cs = search @ rest"
        by (auto simp: startsWith_iff_prefix prefix_def)
      then have "c # cs = [] @ search @ rest" by simp
      then show ?thesis by blast
    next
      case 2
      with Cons.IH obtain b a where "cs = b @ search @ a" by blast
      then have "c # cs = (c # b) @ search @ a" by simp
      then show ?thesis by blast
    qed
  next
    assume "\<exists>before after. c # cs = before @ search @ after"
    then obtain b a where ba: "c # cs = b @ search @ a" by blast
    show "includes_js (c # cs) search"
    proof (cases b)
      case Nil
      with ba have "prefix search (c # cs)" by (simp add: prefix_def)
      then show ?thesis by (simp add: startsWith_iff_prefix)
    next
      case (Cons b0 bs)
      with ba have "cs = bs @ search @ a" by simp
      with Cons.IH have "includes_js cs search" by blast
      then show ?thesis by simp
    qed
  qed
qed

section \<open>Route visibility: the claims\<close>

text \<open>
  C1. For every current path \<open>P\<close> and route set \<open>R\<close> the visibility predicate answers
  hidden exactly when some element of \<open>R\<close> is a literal prefix of \<open>P\<close> (code unit by code
  unit, so case-sensitively and with no pattern syntax). An empty route set never hides,
  and the empty path is hidden by no route set of non-empty prefixes.
\<close>

theorem C1_shouldHide_iff_prefix:
  "(shouldHide R P \<longleftrightarrow> (\<exists>r \<in> set R. prefix r P))
   \<and> \<not> shouldHide [] P
   \<and> ((\<forall>r \<in> set R. r \<noteq> []) \<longrightarrow> \<not> shouldHide R [])"
proof -
  have main: "\<And>Q. shouldHide R Q \<longleftrightarrow> (\<exists>r \<in> set R. prefix r Q)"
    by (simp add: shouldHide_def some_iff_ex startsWith_iff_prefix)
  have "\<not> shouldHide [] P"
    by (simp add: shouldHide_def)
  moreover have "(\<forall>r \<in> set R. r \<noteq> []) \<longrightarrow> \<not> shouldHide R []"
    by (auto simp: main)
  ultimately show ?thesis
    using main by blast
qed

theorem C1_shouldHide_witness:
  "shouldHide [js ''/customer'', js ''/admin''] (js ''/admin/users'')
   \<and> \<not> shouldHide [js ''/customer'', js ''/admin''] (js ''/Admin/users'')
   \<and> js ''/customer'' \<noteq> [] \<and> js ''/admin'' \<noteq> []
   \<and> \<not> shouldHide [js ''/customer'', js ''/admin''] []"
  using C1_shouldHide_iff_prefix [of "[js ''/customer'', js ''/admin'']" "js ''/admin/users''"]
    C1_shouldHide_iff_prefix [of "[js ''/customer'', js ''/admin'']" "js ''/Admin/users''"]
  by (simp add: js_def prefix_def)

text \<open>
  C10. A route set that contains the empty string hides the widget on every path, the
  empty path included: the empty prefix matches everything.
\<close>

theorem C10_empty_prefix_hides_all:
  "[] \<in> set R \<Longrightarrow> shouldHide R P"
proof -
  assume "[] \<in> set R"
  moreover have "startsWith P []"
    by (rule startsWith_empty_search)
  ultimately have "\<exists>r \<in> set R. startsWith P r"
    by blast
  then show ?thesis
    by (simp add: shouldHide_def some_iff_ex)
qed

theorem C10_empty_prefix_witness:
  "[] \<in> set [js ''/customer'', []] \<and> shouldHide [js ''/customer'', []] (js ''/orders'')
   \<and> shouldHide [js ''/customer'', []] []"
  using C10_empty_prefix_hides_all [of "[js ''/customer'', []]" "js ''/orders''"]
    C10_empty_prefix_hides_all [of "[js ''/customer'', []]" "[]"]
  by simp

section \<open>The conversation engine: the claims\<close>

lemma all_dropWhile_iff: "(\<forall>c \<in> set (dropWhile P s). P c) \<longleftrightarrow> (\<forall>c \<in> set s. P c)"
proof
  assume all: "\<forall>c \<in> set (dropWhile P s). P c"
  have "dropWhile P s = []"
  proof (cases "dropWhile P s")
    case Nil
    then show ?thesis .
  next
    case (Cons a as)
    then have "\<not> P a"
      by (metis hd_dropWhile list.sel(1) list.distinct(1))
    moreover from Cons all have "P a" by simp
    ultimately show ?thesis by simp
  qed
  then show "\<forall>c \<in> set s. P c"
    by (simp add: dropWhile_eq_Nil_conv)
next
  assume "\<forall>c \<in> set s. P c"
  then show "\<forall>c \<in> set (dropWhile P s). P c"
    by (meson set_dropWhileD)
qed

text \<open>The trimmed draft is empty exactly when the draft is empty or all white space.\<close>

lemma trim_empty_iff: "trim s = [] \<longleftrightarrow> (\<forall>c \<in> set s. is_white_space c)"
proof -
  have "trim s = [] \<longleftrightarrow> (\<forall>c \<in> set (rev (dropWhile is_white_space s)). is_white_space c)"
    unfolding trim_def rev_is_Nil_conv dropWhile_eq_Nil_conv ..
  also have "\<dots> \<longleftrightarrow> (\<forall>c \<in> set (dropWhile is_white_space s). is_white_space c)"
    by simp
  also have "\<dots> \<longleftrightarrow> (\<forall>c \<in> set s. is_white_space c)"
    by (rule all_dropWhile_iff)
  finally show ?thesis .
qed

lemmas engine_defs = handleSendMessage_def setMessages_def setInputValue_def setIsTyping_def
  setTimeout_def Let_def

lemma hello_engine_eq:
  "hello_engine = \<lparr>mounted = True, isOpen = False,
      messages = [\<lparr>msg_id = 1, msg_text = welcome_text, msg_sender = Bot, msg_timestamp = 5\<rparr>],
      inputValue = js '' Hello '', isTyping = False, clock = 5, pending = [], sink = [],
      events = []\<rparr>"
  by (simp add: hello_engine_def mount_def setInputValue_def setMessages_def Let_def)

lemma trim_hello: "trim (js '' Hello '') = js ''Hello''"
  by (simp add: trim_def js_def is_white_space_def)

lemma js_hello_ne: "js ''Hello'' \<noteq> []"
  by (simp add: js_def)

lemma hello_engine_sendable:
  "trim (inputValue hello_engine) \<noteq> []" "\<not> isTyping hello_engine" "mounted hello_engine"
  "pending hello_engine = []"
  by (simp_all add: hello_engine_eq trim_hello js_hello_ne)

lemma send_result:
  assumes "trim (inputValue e) \<noteq> []" and "\<not> isTyping e" and "mounted e"
  shows "handleSendMessage om e =
    e\<lparr>messages := messages e @ [\<lparr>msg_id = length (messages e) + 1,
          msg_text = trim (inputValue e), msg_sender = User, msg_timestamp = clock e\<rparr>],
       inputValue := [], isTyping := True,
       sink := (if om then sink e @ [trim (inputValue e)] else sink e),
       events := events e @ (if om then [SinkCalled (trim (inputValue e))] else [])
                   @ [TimeoutScheduled 1000],
       pending := pending e @ [\<lparr>fires_at = clock e + 1000, bot_id = length (messages e) + 2\<rparr>]\<rparr>"
  using assms by (simp add: engine_defs)

lemma elapse_before:
  assumes "pending e = [\<lparr>fires_at = clock e + 1000, bot_id = b\<rparr>]" and "d < 1000"
  shows "elapse d e = e\<lparr>clock := clock e + d\<rparr>"
  using assms by (simp add: elapse_def Let_def)

lemma elapse_after:
  assumes "pending e = [\<lparr>fires_at = clock e + 1000, bot_id = b\<rparr>]" and "1000 \<le> d"
  shows "elapse d e =
    (bot_reply b (e\<lparr>pending := [], clock := clock e + 1000\<rparr>))\<lparr>clock := clock e + d\<rparr>"
  using assms
  by (simp add: elapse_def Let_def run_timer_def bot_reply_def setMessages_def setIsTyping_def)

text \<open>
  In every state a mounted engine can reach, no timeout is pending while \<open>isTyping\<close> is
  false, and exactly one is pending while it is true.
\<close>

lemma reachable_invariant:
  "reachable e \<Longrightarrow>
     mounted e \<and> (if isTyping e then \<exists>t. pending e = [t] else pending e = [])"
proof (induction rule: reachable.induct)
  case (mounted now)
  show ?case by (simp add: mount_def setMessages_def Let_def)
next
  case (typed e v)
  then show ?case by (simp add: setInputValue_def)
next
  case (sent e onMessage)
  then show ?case by (simp add: engine_defs split: if_splits)
next
  case (toggled e)
  then show ?case by (simp add: toggleChat_def setIsOpen_def)
next
  case (navigated e routes pathname)
  then show ?case by (simp add: close_when_hidden_def setIsOpen_def)
next
  case (waited e d)
  show ?case
  proof (cases "isTyping e")
    case False
    with waited.IH have "pending e = []" and "mounted e" by simp_all
    with False show ?thesis by (simp add: elapse_def Let_def)
  next
    case True
    with waited.IH obtain t where t: "pending e = [t]" and m: "mounted e" by auto
    show ?thesis
    proof (cases "fires_at t \<le> clock e + d")
      case True
      with t m show ?thesis
        by (simp add: elapse_def Let_def run_timer_def bot_reply_def setMessages_def
            setIsTyping_def)
    next
      case False
      with t m \<open>isTyping e\<close> show ?thesis
        by (simp add: elapse_def Let_def)
    qed
  qed
qed

lemma reachable_idle_no_pending:
  "reachable e \<Longrightarrow> \<not> isTyping e \<Longrightarrow> mounted e \<and> pending e = []"
  using reachable_invariant [of e] by simp

text \<open>
  C4. A call of \<open>handleSendMessage\<close> whose draft is empty or all white space (so that the
  trimmed draft is empty), or that is made while \<open>isTyping\<close> is true, changes nothing:
  the whole engine, and with it the message sequence, the draft, \<open>isTyping\<close>, the calls
  of the outbound sink and the timer queue, is as before.
\<close>

theorem C4_send_guard_noop:
  "(\<forall>c \<in> set (inputValue e). is_white_space c) \<or> isTyping e \<Longrightarrow>
     handleSendMessage onMessage e = e
     \<and> messages (handleSendMessage onMessage e) = messages e
     \<and> inputValue (handleSendMessage onMessage e) = inputValue e
     \<and> isTyping (handleSendMessage onMessage e) = isTyping e
     \<and> sink (handleSendMessage onMessage e) = sink e
     \<and> events (handleSendMessage onMessage e) = events e"
  by (simp add: handleSendMessage_def trim_empty_iff)

theorem C4_send_guard_witness:
  "inputValue blank_engine = js ''   '' \<and> \<not> isTyping blank_engine
   \<and> handleSendMessage True blank_engine = blank_engine
   \<and> inputValue busy_engine = js ''again'' \<and> isTyping busy_engine
   \<and> handleSendMessage True busy_engine = busy_engine
   \<and> sink (handleSendMessage True busy_engine) = [js ''Hello'']"
proof -
  have blank: "blank_engine = \<lparr>mounted = True, isOpen = False,
      messages = [\<lparr>msg_id = 1, msg_text = welcome_text, msg_sender = Bot, msg_timestamp = 5\<rparr>],
      inputValue = js ''   '', isTyping = False, clock = 5, pending = [], sink = [],
      events = []\<rparr>"
    by (simp add: blank_engine_def mount_def setInputValue_def setMessages_def Let_def)
  have h1: "(\<forall>c \<in> set (inputValue blank_engine). is_white_space c) \<or> isTyping blank_engine"
    by (simp add: blank js_def is_white_space_def)
  have busy: "inputValue busy_engine = js ''again''" "isTyping busy_engine"
    "sink busy_engine = [js ''Hello'']"
    unfolding busy_engine_def setInputValue_def
      send_result [OF hello_engine_sendable(1-3), of True]
    by (simp_all add: hello_engine_eq trim_hello)
  then have h2: "(\<forall>c \<in> set (inputValue busy_engine). is_white_space c) \<or> isTyping busy_engine"
    by simp
  show ?thesis
    using C4_send_guard_noop [OF h1, of True] C4_send_guard_noop [OF h2, of True] busy
    by (simp add: blank)
qed

text \<open>
  C5. A call of \<open>handleSendMessage\<close> on a mounted engine whose trimmed draft is not empty
  and whose \<open>isTyping\<close> is false appends a user message with the trimmed draft, clears
  the draft and sets \<open>isTyping\<close>; if \<open>onMessage\<close> was supplied it is called with the
  trimmed text, and this call comes before the timeout is scheduled. The timeout is
  scheduled for 1000 ms later. With no other timeout pending (which is so in every
  reachable state with \<open>isTyping\<close> false): before 1000 ms have passed the messages are
  unchanged and \<open>isTyping\<close> is still true; once 1000 ms have passed the fixed bot reply
  has been appended and \<open>isTyping\<close> is false again.
\<close>

theorem C5_send_then_reply:
  assumes "trim (inputValue e) \<noteq> []" and "\<not> isTyping e" and "mounted e"
  shows "messages (handleSendMessage om e) =
           messages e @ [\<lparr>msg_id = length (messages e) + 1, msg_text = trim (inputValue e),
                           msg_sender = User, msg_timestamp = clock e\<rparr>]
       \<and> inputValue (handleSendMessage om e) = []
       \<and> isTyping (handleSendMessage om e)
       \<and> sink (handleSendMessage om e) = (if om then sink e @ [trim (inputValue e)] else sink e)
       \<and> events (handleSendMessage om e) =
           events e @ (if om then [SinkCalled (trim (inputValue e))] else [])
             @ [TimeoutScheduled 1000]
       \<and> pending (handleSendMessage om e) =
           pending e @ [\<lparr>fires_at = clock e + 1000, bot_id = length (messages e) + 2\<rparr>]
       \<and> (pending e = [] \<longrightarrow>
            (\<forall>d < 1000. messages (elapse d (handleSendMessage om e)) =
                          messages (handleSendMessage om e)
                       \<and> isTyping (elapse d (handleSendMessage om e)))
          \<and> (\<forall>d \<ge> 1000. messages (elapse d (handleSendMessage om e)) =
                 messages (handleSendMessage om e) @
                   [\<lparr>msg_id = length (messages e) + 2, msg_text = reply_text,
                      msg_sender = Bot, msg_timestamp = clock e + 1000\<rparr>]
               \<and> \<not> isTyping (elapse d (handleSendMessage om e))
               \<and> pending (elapse d (handleSendMessage om e)) = []))"
proof -
  let ?s = "handleSendMessage om e"
  note r = send_result [OF assms, of om]
  have basic:
    "messages ?s = messages e @ [\<lparr>msg_id = length (messages e) + 1,
       msg_text = trim (inputValue e), msg_sender = User, msg_timestamp = clock e\<rparr>]"
    "inputValue ?s = []" "isTyping ?s" "mounted ?s" "clock ?s = clock e"
    "sink ?s = (if om then sink e @ [trim (inputValue e)] else sink e)"
    "events ?s = events e @ (if om then [SinkCalled (trim (inputValue e))] else [])
       @ [TimeoutScheduled 1000]"
    "pending ?s = pending e @ [\<lparr>fires_at = clock e + 1000, bot_id = length (messages e) + 2\<rparr>]"
    using assms(3) by (simp_all add: r)
  have timed: "pending e = [] \<longrightarrow>
            (\<forall>d < 1000. messages (elapse d ?s) = messages ?s \<and> isTyping (elapse d ?s))
          \<and> (\<forall>d \<ge> 1000. messages (elapse d ?s) =
                 messages ?s @
                   [\<lparr>msg_id = length (messages e) + 2, msg_text = reply_text,
                      msg_sender = Bot, msg_timestamp = clock e + 1000\<rparr>]
               \<and> \<not> isTyping (elapse d ?s)
               \<and> pending (elapse d ?s) = [])"
  proof
    assume "pending e = []"
    with basic
    have p: "pending ?s = [\<lparr>fires_at = clock ?s + 1000, bot_id = length (messages e) + 2\<rparr>]"
      by simp
    have before: "\<forall>d < 1000. messages (elapse d ?s) = messages ?s \<and> isTyping (elapse d ?s)"
      using basic(3) by (simp add: elapse_before [OF p])
    have after: "\<forall>d \<ge> 1000. messages (elapse d ?s) =
                 messages ?s @
                   [\<lparr>msg_id = length (messages e) + 2, msg_text = reply_text,
                      msg_sender = Bot, msg_timestamp = clock e + 1000\<rparr>]
               \<and> \<not> isTyping (elapse d ?s)
               \<and> pending (elapse d ?s) = []"
      using basic(4,5)
      by (simp add: elapse_after [OF p] bot_reply_def setMessages_def setIsTyping_def Let_def)
    from before after
    show "(\<forall>d < 1000. messages (elapse d ?s) = messages ?s \<and> isTyping (elapse d ?s))
          \<and> (\<forall>d \<ge> 1000. messages (elapse d ?s) =
                 messages ?s @
                   [\<lparr>msg_id = length (messages e) + 2, msg_text = reply_text,
                      msg_sender = Bot, msg_timestamp = clock e + 1000\<rparr>]
               \<and> \<not> isTyping (elapse d ?s)
               \<and> pending (elapse d ?s) = [])"
      by blast
  qed
  from basic timed show ?thesis by blast
qed

theorem C5_send_then_reply_witness:
  "trim (inputValue hello_engine) \<noteq> [] \<and> \<not> isTyping hello_engine \<and> mounted hello_engine
   \<and> pending hello_engine = []
   \<and> messages (handleSendMessage True hello_engine) =
        [\<lparr>msg_id = 1, msg_text = welcome_text, msg_sender = Bot, msg_timestamp = 5\<rparr>,
         \<lparr>msg_id = 2, msg_text = js ''Hello'', msg_sender = User, msg_timestamp = 5\<rparr>]
   \<and> sink (handleSendMessage True hello_engine) = [js ''Hello'']
   \<and> events (handleSendMessage True hello_engine) =
        [SinkCalled (js ''Hello''), TimeoutScheduled 1000]
   \<and> isTyping (elapse 999 (handleSendMessage True hello_engine))
   \<and> messages (elapse 1000 (handleSendMessage True hello_engine)) =
        [\<lparr>msg_id = 1, msg_text = welcome_text, msg_sender = Bot, msg_timestamp = 5\<rparr>,
         \<lparr>msg_id = 2, msg_text = js ''Hello'', msg_sender = User, msg_timestamp = 5\<rparr>,
         \<lparr>msg_id = 3, msg_text = reply_text, msg_sender = Bot, msg_timestamp = 1005\<rparr>]
   \<and> \<not> isTyping (elapse 1000 (handleSendMessage True hello_engine))"
  using hello_engine_sendable C5_send_then_reply [OF hello_engine_sendable(1-3), of True]
  by (simp add: hello_engine_eq trim_hello)

text \<open>
  C6, as the claim states it, fails: unmounting cancels nothing. After a send and an
  unmount the timeout is still in the host's queue, and 1000 ms later its callback runs.
\<close>

theorem C6_teardown_counterexample:
  "pending (unmount (handleSendMessage True hello_engine)) = [\<lparr>fires_at = 1005, bot_id = 3\<rparr>]
   \<and> events (elapse 1000 (unmount (handleSendMessage True hello_engine))) =
       [SinkCalled (js ''Hello''), TimeoutScheduled 1000, CallbackRan 3]"
  by (simp add: hello_engine_eq trim_hello js_hello_ne engine_defs unmount_def elapse_def
      run_timer_def bot_reply_def)

text \<open>
  C6, amended. If the engine is unmounted after \<open>handleSendMessage\<close> started the delay
  and before it fires, the timeout is not cancelled: it stays in the host's queue, and
  once 1000 ms have passed its callback has run. The two state updates the callback
  requests are addressed to an unmounted instance and are discarded by React: the message
  sequence and \<open>isTyping\<close> are as the send left them.
\<close>

theorem C6_teardown_keeps_timer:
  assumes "trim (inputValue e) \<noteq> []" and "\<not> isTyping e" and "mounted e" and "pending e = []"
  shows "pending (unmount (handleSendMessage om e)) =
           [\<lparr>fires_at = clock e + 1000, bot_id = length (messages e) + 2\<rparr>]
       \<and> (\<forall>d \<ge> 1000.
            events (elapse d (unmount (handleSendMessage om e))) =
              events (handleSendMessage om e) @ [CallbackRan (length (messages e) + 2)]
          \<and> messages (elapse d (unmount (handleSendMessage om e))) =
              messages (handleSendMessage om e)
          \<and> isTyping (elapse d (unmount (handleSendMessage om e)))
          \<and> pending (elapse d (unmount (handleSendMessage om e))) = [])"
proof -
  let ?u = "unmount (handleSendMessage om e)"
  note r = send_result [OF assms(1-3), of om]
  have p: "pending ?u = [\<lparr>fires_at = clock ?u + 1000, bot_id = length (messages e) + 2\<rparr>]"
    using assms(4) by (simp add: unmount_def r)
  have u: "\<not> mounted ?u" "isTyping ?u" "messages ?u = messages (handleSendMessage om e)"
    "events ?u = events (handleSendMessage om e)" "clock ?u = clock e"
    by (simp_all add: unmount_def r)
  have "\<forall>d \<ge> 1000.
            events (elapse d ?u) =
              events (handleSendMessage om e) @ [CallbackRan (length (messages e) + 2)]
          \<and> messages (elapse d ?u) = messages (handleSendMessage om e)
          \<and> isTyping (elapse d ?u)
          \<and> pending (elapse d ?u) = []"
    using u
    by (simp add: elapse_after [OF p] bot_reply_def setMessages_def setIsTyping_def Let_def)
  with p u(5) show ?thesis by simp
qed

theorem C6_teardown_keeps_timer_witness:
  "trim (inputValue hello_engine) \<noteq> [] \<and> \<not> isTyping hello_engine \<and> mounted hello_engine
   \<and> pending hello_engine = []
   \<and> pending (unmount (handleSendMessage True hello_engine)) =
       [\<lparr>fires_at = 1005, bot_id = 3\<rparr>]
   \<and> events (elapse 1000 (unmount (handleSendMessage True hello_engine))) =
       events (handleSendMessage True hello_engine) @ [CallbackRan 3]
   \<and> messages (elapse 1000 (unmount (handleSendMessage True hello_engine))) =
       messages (handleSendMessage True hello_engine)
   \<and> isTyping (elapse 1000 (unmount (handleSendMessage True hello_engine)))"
  using hello_engine_sendable C6_teardown_keeps_timer [OF hello_engine_sendable, of True]
  by (simp add: hello_engine_eq)

text \<open>
  The same holds when time passes between the send and the unmount: the timeout stays
  queued and its callback runs once 1000 ms have passed since the send.
\<close>

lemma teardown_later_keeps_timer:
  assumes "trim (inputValue e) \<noteq> []" and "\<not> isTyping e" and "mounted e" and "pending e = []"
    and "d1 < 1000" and "1000 \<le> d1 + d2"
  shows "pending (unmount (elapse d1 (handleSendMessage om e))) =
           [\<lparr>fires_at = clock e + 1000, bot_id = length (messages e) + 2\<rparr>]
       \<and> events (elapse d2 (unmount (elapse d1 (handleSendMessage om e)))) =
           events (handleSendMessage om e) @ [CallbackRan (length (messages e) + 2)]
       \<and> messages (elapse d2 (unmount (elapse d1 (handleSendMessage om e)))) =
           messages (handleSendMessage om e)
       \<and> isTyping (elapse d2 (unmount (elapse d1 (handleSendMessage om e))))
       \<and> pending (elapse d2 (unmount (elapse d1 (handleSendMessage om e)))) = []"
proof -
  let ?s = "handleSendMessage om e"
  note r = send_result [OF assms(1-3), of om]
  have p: "pending ?s = [\<lparr>fires_at = clock ?s + 1000, bot_id = length (messages e) + 2\<rparr>]"
    using assms(4) by (simp add: r)
  have b: "elapse d1 ?s = ?s\<lparr>clock := clock ?s + d1\<rparr>"
    by (rule elapse_before [OF p assms(5)])
  show ?thesis
    unfolding b using assms(4,5,6)
    by (simp add: r unmount_def elapse_def Let_def run_timer_def bot_reply_def setMessages_def
        setIsTyping_def)
qed

section \<open>The error containment: the claims\<close>

lemma includes_js_iff_sublist: "includes_js s m \<longleftrightarrow> sublist m s"
  by (simp add: includes_iff_infix sublist_def)

lemma nonempty_and_includes: "m \<noteq> [] \<Longrightarrow> (s \<noteq> [] \<and> includes_js s m) \<longleftrightarrow> sublist m s"
  by (cases s) (auto simp: includes_js_iff_sublist)

lemma markers_nonempty:
  "js ''Tawk'' \<noteq> []" "js ''i18next'' \<noteq> []" "js ''$_Tawk'' \<noteq> []"
  "js ''is not a function'' \<noteq> []" "js ''tawk'' \<noteq> []" "js ''new message'' \<noteq> []"
  by (simp_all add: js_def)

lemma sync_test_iff:
  "((msg \<noteq> []
          \<and> (includes_js msg (js ''Tawk'') \<or> includes_js msg (js ''i18next'')
             \<or> includes_js msg (js ''$_Tawk'')
             \<or> includes_js msg (js ''is not a function'')))
         \<or> (url \<noteq> [] \<and> includes_js url (js ''tawk'')))
   \<longleftrightarrow> (sublist (js ''Tawk'') msg \<or> sublist (js ''i18next'') msg \<or> sublist (js ''$_Tawk'') msg
        \<or> sublist (js ''is not a function'') msg \<or> sublist (js ''tawk'') url)"
  using nonempty_and_includes [OF markers_nonempty(1), of msg]
    nonempty_and_includes [OF markers_nonempty(2), of msg]
    nonempty_and_includes [OF markers_nonempty(3), of msg]
    nonempty_and_includes [OF markers_nonempty(4), of msg]
    nonempty_and_includes [OF markers_nonempty(5), of url]
  by blast

lemma rejection_test_iff:
  "((msg \<noteq> []
          \<and> (includes_js msg (js ''Tawk'') \<or> includes_js msg (js ''i18next'')
             \<or> includes_js msg (js ''$_Tawk'')))
         \<or> (stack \<noteq> [] \<and> includes_js stack (js ''tawk'')))
   \<longleftrightarrow> (sublist (js ''Tawk'') msg \<or> sublist (js ''i18next'') msg \<or> sublist (js ''$_Tawk'') msg
        \<or> sublist (js ''tawk'') stack)"
  using nonempty_and_includes [OF markers_nonempty(1), of msg]
    nonempty_and_includes [OF markers_nonempty(2), of msg]
    nonempty_and_includes [OF markers_nonempty(3), of msg]
    nonempty_and_includes [OF markers_nonempty(5), of stack]
  by blast

lemma call_TawkHandler:
  "call_onerror (TawkHandler h) r =
     (if sublist (js ''Tawk'') (err_msg r) \<or> sublist (js ''i18next'') (err_msg r)
         \<or> sublist (js ''$_Tawk'') (err_msg r) \<or> sublist (js ''is not a function'') (err_msg r)
         \<or> sublist (js ''tawk'') (err_url r)
      then (True, [Warned (ErrorPrevented (err_msg r))])
      else call_onerror h r)"
  by (cases h) (simp_all only: call_onerror.simps sync_test_iff handler.case)

lemma rejection_listener_eq:
  "rejection_listener reason out =
     (if \<exists>r. reason = Some r
            \<and> (sublist (js ''Tawk'') (reason_message r) \<or> sublist (js ''i18next'') (reason_message r)
               \<or> sublist (js ''$_Tawk'') (reason_message r)
               \<or> sublist (js ''tawk'') (reason_stack r))
      then out\<lparr>defaultPrevented := True, warned := warned out @ [RejectionPrevented]\<rparr>
      else out)"
proof (cases reason)
  case None
  then show ?thesis by (simp add: rejection_listener_def)
next
  case (Some r)
  then show ?thesis
    unfolding rejection_listener_def rejection_test_iff by simp
qed

lemmas eval_includes = includes_js_iff_sublist [symmetric] js_def startsWith_def

lemma fresh_fields:
  "Tawk_API fresh_window = None" "Tawk_LoadStart fresh_window = None"
  "onerror fresh_window = NoHandler" "listeners fresh_window = []"
  "head_scripts fresh_window = []" "title fresh_window = js ''Home''"
  "time_ms fresh_window = 0" "timers fresh_window = []" "timers_created fresh_window = 0"
  "trace fresh_window = []"
  by (simp_all add: fresh_window_def)

text \<open>
  C3, as the claim states it, fails in its last part. A report that matches no marker is
  forwarded to the original handler, and the wrapper returns what that handler returns: when
  the host page's own handler returns true, the error is reported as handled.
\<close>

theorem C3_forwarded_verdict_counterexample:
  "\<not> includes_js (err_msg host_error) (js ''Tawk'')
   \<and> \<not> includes_js (err_msg host_error) (js ''i18next'')
   \<and> \<not> includes_js (err_msg host_error) (js ''$_Tawk'')
   \<and> \<not> includes_js (err_msg host_error) (js ''is not a function'')
   \<and> \<not> includes_js (err_url host_error) (js ''tawk'')
   \<and> call_onerror (onerror (setupErrorHandling (fresh_window\<lparr>onerror := silencing_handler\<rparr>)))
         host_error = (True, [HostHandlerCalled host_error])"
  by (simp add: host_error_def setupErrorHandling_def Let_def silencing_handler_def
      js_def startsWith_def)

text \<open>
  C3, amended. \<open>setupErrorHandling\<close> replaces \<open>window.onerror\<close> by a wrapper of the
  handler that was there. For every report: if its message contains \<open>Tawk\<close>,
  \<open>i18next\<close>, \<open>$_Tawk\<close> or \<open>is not a function\<close>, or its URL contains \<open>tawk\<close>, the
  wrapper returns true, logs one warning and does not call the original handler; otherwise
  the unchanged report goes to the original handler and the wrapper returns that handler's
  verdict, or false when there was no handler. So the wrapper adds no suppression of its
  own to an unmatched error. The capturing \<open>error\<close> listener applies the same test and
  touches the event only on a match.
\<close>

theorem C3_onerror_wrapper:
  "onerror (setupErrorHandling w) = TawkHandler (onerror w)
   \<and> call_onerror (TawkHandler h) r =
       (if sublist (js ''Tawk'') (err_msg r) \<or> sublist (js ''i18next'') (err_msg r)
           \<or> sublist (js ''$_Tawk'') (err_msg r)
           \<or> sublist (js ''is not a function'') (err_msg r)
           \<or> sublist (js ''tawk'') (err_url r)
        then (True, [Warned (ErrorPrevented (err_msg r))])
        else call_onerror h r)
   \<and> call_onerror (HostHandler f) r = (f r, [HostHandlerCalled r])
   \<and> call_onerror NoHandler r = (False, [])
   \<and> error_listener e out =
       (if sublist (js ''Tawk'') (ev_message e) \<or> sublist (js ''i18next'') (ev_message e)
           \<or> sublist (js ''$_Tawk'') (ev_message e)
           \<or> sublist (js ''is not a function'') (ev_message e)
           \<or> sublist (js ''tawk'') (ev_filename e)
        then out\<lparr>defaultPrevented := True, propagationStopped := True,
                 warned := warned out @ [ErrorPrevented (ev_message e)]\<rparr>
        else out)"
proof -
  have "onerror (setupErrorHandling w) = TawkHandler (onerror w)"
    by (simp add: setupErrorHandling_def Let_def)
  moreover have "error_listener e out =
       (if sublist (js ''Tawk'') (ev_message e) \<or> sublist (js ''i18next'') (ev_message e)
           \<or> sublist (js ''$_Tawk'') (ev_message e)
           \<or> sublist (js ''is not a function'') (ev_message e)
           \<or> sublist (js ''tawk'') (ev_filename e)
        then out\<lparr>defaultPrevented := True, propagationStopped := True,
                 warned := warned out @ [ErrorPrevented (ev_message e)]\<rparr>
        else out)"
    unfolding error_listener_def sync_test_iff ..
  ultimately show ?thesis
    using call_TawkHandler [of h r] by simp
qed

theorem C3_onerror_wrapper_witness:
  "call_onerror (onerror (setupErrorHandling (fresh_window\<lparr>onerror := declining_handler\<rparr>)))
     widget_error = (True, [Warned (ErrorPrevented (err_msg widget_error))])
   \<and> call_onerror (onerror (setupErrorHandling (fresh_window\<lparr>onerror := declining_handler\<rparr>)))
       host_error = (False, [HostHandlerCalled host_error])
   \<and> call_onerror (onerror (setupErrorHandling fresh_window)) host_error = (False, [])"
proof -
  have m: "sublist (js ''is not a function'') (err_msg widget_error)"
    by (simp add: widget_error_def eval_includes)
  have n: "\<not> sublist (js ''Tawk'') (err_msg host_error)"
    "\<not> sublist (js ''i18next'') (err_msg host_error)"
    "\<not> sublist (js ''$_Tawk'') (err_msg host_error)"
    "\<not> sublist (js ''is not a function'') (err_msg host_error)"
    "\<not> sublist (js ''tawk'') (err_url host_error)"
    by (simp_all add: host_error_def eval_includes)
  show ?thesis
    using C3_onerror_wrapper [where w = "fresh_window\<lparr>onerror := declining_handler\<rparr>"
        and h = declining_handler and r = widget_error and f = "\<lambda>r. False"]
      C3_onerror_wrapper [where w = "fresh_window\<lparr>onerror := declining_handler\<rparr>"
        and h = declining_handler and r = host_error and f = "\<lambda>r. False"]
      C3_onerror_wrapper [where w = fresh_window and h = NoHandler and r = host_error]
      m n
    by (simp add: declining_handler_def fresh_fields)
qed

text \<open>
  C8, as the claim states it, fails: a rejection whose message contains
  \<open>is not a function\<close> is left alone by the rejection listener, while the \<open>error\<close>
  listener prevents the default for an event with the same message; and a marker that
  occurs only in the stack is not matched.
\<close>

theorem C8_rejection_counterexample:
  "rejection_listener
     (Some \<lparr>reason_message = js ''t.init is not a function'',
            reason_stack = js ''TypeError: t.init is not a function at app.js:1:1''\<rparr>)
     untouched = untouched
   \<and> defaultPrevented
       (error_listener \<lparr>ev_message = js ''t.init is not a function'',
                        ev_filename = js ''app.js''\<rparr> untouched)
   \<and> rejection_listener
       (Some \<lparr>reason_message = js ''boom'', reason_stack = js ''at i18next.init (app.js)''\<rparr>)
       untouched = untouched"
  by (simp add: rejection_listener_def error_listener_def untouched_def js_def startsWith_def)

text \<open>
  C8, amended. The \<open>unhandledrejection\<close> listener applies a narrower test than the
  synchronous handlers: it marks the rejection handled (and logs one warning) exactly when
  the reason is truthy and its message contains \<open>Tawk\<close>, \<open>i18next\<close> or \<open>$_Tawk\<close>, or
  its stack contains \<open>tawk\<close>. The phrase \<open>is not a function\<close> is not tested, and the
  three markers are tested against the message only.
\<close>

theorem C8_rejection_listener_test:
  "rejection_listener reason out =
     (if \<exists>r. reason = Some r
            \<and> (sublist (js ''Tawk'') (reason_message r)
               \<or> sublist (js ''i18next'') (reason_message r)
               \<or> sublist (js ''$_Tawk'') (reason_message r)
               \<or> sublist (js ''tawk'') (reason_stack r))
      then out\<lparr>defaultPrevented := True, warned := warned out @ [RejectionPrevented]\<rparr>
      else out)
   \<and> (defaultPrevented (rejection_listener reason untouched) \<longleftrightarrow>
        (\<exists>r. reason = Some r
            \<and> (sublist (js ''Tawk'') (reason_message r)
               \<or> sublist (js ''i18next'') (reason_message r)
               \<or> sublist (js ''$_Tawk'') (reason_message r)
               \<or> sublist (js ''tawk'') (reason_stack r))))"
proof -
  note e = rejection_listener_eq [of reason]
  have "defaultPrevented (rejection_listener reason untouched) \<longleftrightarrow>
        (\<exists>r. reason = Some r
            \<and> (sublist (js ''Tawk'') (reason_message r)
               \<or> sublist (js ''i18next'') (reason_message r)
               \<or> sublist (js ''$_Tawk'') (reason_message r)
               \<or> sublist (js ''tawk'') (reason_stack r)))"
    unfolding e [of untouched] by (simp add: untouched_def)
  with e [of out] show ?thesis by blast
qed

theorem C8_rejection_listener_witness:
  "defaultPrevented
     (rejection_listener (Some \<lparr>reason_message = js ''i18next failed'', reason_stack = []\<rparr>)
        untouched)
   \<and> defaultPrevented
     (rejection_listener
        (Some \<lparr>reason_message = js ''boom'',
               reason_stack = js ''at https://embed.tawk.to/x.js''\<rparr>) untouched)
   \<and> \<not> defaultPrevented (rejection_listener None untouched)"
proof -
  have a: "sublist (js ''i18next'') (js ''i18next failed'')"
    and b: "sublist (js ''tawk'') (js ''at https://embed.tawk.to/x.js'')"
    by (simp_all add: eval_includes)
  show ?thesis
    using a b
      C8_rejection_listener_test [of "Some \<lparr>reason_message = js ''i18next failed'', reason_stack = []\<rparr>" untouched]
      C8_rejection_listener_test [of "Some \<lparr>reason_message = js ''boom'',
               reason_stack = js ''at https://embed.tawk.to/x.js''\<rparr>" untouched]
      C8_rejection_listener_test [of None untouched]
    by (simp add: untouched_def)
qed

section \<open>Loading once: the claims\<close>

lemmas effect_defs = tawk_effect_def Let_def window_setTimeout_def setInterval_def split_def
  setupErrorHandling_def

lemma effect_when_loaded:
  assumes "Tawk_API w \<noteq> None" and "Tawk_LoadStart w \<noteq> None"
  shows "Tawk_API (fst (tawk_effect p path w)) = Tawk_API w"
    and "Tawk_LoadStart (fst (tawk_effect p path w)) = Tawk_LoadStart w"
    and "onerror (fst (tawk_effect p path w)) = onerror w"
    and "listeners (fst (tawk_effect p path w)) = listeners w"
    and "head_scripts (fst (tawk_effect p path w)) = head_scripts w"
    and "trace (fst (tawk_effect p path w)) = trace w"
    and "console (fst (tawk_effect p path w)) = console w"
    and "callbacks (fst (tawk_effect p path w)) = callbacks w"
proof -
  from assms obtain a l where "Tawk_API w = Some a" and "Tawk_LoadStart w = Some l"
    by auto
  then show "Tawk_API (fst (tawk_effect p path w)) = Tawk_API w"
    and "Tawk_LoadStart (fst (tawk_effect p path w)) = Tawk_LoadStart w"
    and "onerror (fst (tawk_effect p path w)) = onerror w"
    and "listeners (fst (tawk_effect p path w)) = listeners w"
    and "head_scripts (fst (tawk_effect p path w)) = head_scripts w"
    and "trace (fst (tawk_effect p path w)) = trace w"
    and "console (fst (tawk_effect p path w)) = console w"
    and "callbacks (fst (tawk_effect p path w)) = callbacks w"
    by (simp_all add: effect_defs)
qed

lemma effect_when_unloaded:
  assumes "Tawk_API w = None \<or> Tawk_LoadStart w = None"
  shows "Tawk_API (fst (tawk_effect p path w)) \<noteq> None"
    and "Tawk_LoadStart (fst (tawk_effect p path w)) = Some (time_ms w)"
    and "head_scripts (fst (tawk_effect p path w)) =
           head_scripts w @ [\<lparr>src = script_url p,
              captured_hide = shouldHide (hideOnRoutes p) path,
              captured_protect = enableTitleProtection p,
              has_onLoad = onLoad p, has_onError = onError p\<rparr>]"
    and "trace (fst (tawk_effect p path w)) =
           trace w @ (if enableErrorHandling p then [ErrorHandlingInstalled] else [])
             @ [LoadStartSet (time_ms w), ScriptInjected (script_url p)]"
    and "onerror (fst (tawk_effect p path w)) =
           (if enableErrorHandling p then TawkHandler (onerror w) else onerror w)"
    and "listeners (fst (tawk_effect p path w)) =
           listeners w @ (if enableErrorHandling p
                          then [(ErrorEvent, TawkErrorListener),
                                (UnhandledRejection, TawkRejectionListener)]
                          else [])"
  using assms by (auto simp add: effect_defs)

lemma cleanup_keeps:
  "Tawk_API (cleanup h w) = Tawk_API w" "Tawk_LoadStart (cleanup h w) = Tawk_LoadStart w"
  "onerror (cleanup h w) = onerror w" "listeners (cleanup h w) = listeners w"
  "head_scripts (cleanup h w) = head_scripts w" "trace (cleanup h w) = trace w"
  "console (cleanup h w) = console w" "callbacks (cleanup h w) = callbacks w"
  "title (cleanup h w) = title w" "time_ms (cleanup h w) = time_ms w"
  "timers_created (cleanup h w) = timers_created w"
  by (simp_all add: cleanup_def clearInterval_def split: option.splits)

lemma effect_loaded_after:
  "Tawk_API (fst (tawk_effect p path w)) \<noteq> None"
  "Tawk_LoadStart (fst (tawk_effect p path w)) \<noteq> None"
proof -
  show "Tawk_API (fst (tawk_effect p path w)) \<noteq> None"
  proof (cases "Tawk_API w = None \<or> Tawk_LoadStart w = None")
    case True
    then show ?thesis by (rule effect_when_unloaded(1))
  next
    case False
    then show ?thesis by (simp add: effect_when_loaded(1))
  qed
  show "Tawk_LoadStart (fst (tawk_effect p path w)) \<noteq> None"
  proof (cases "Tawk_API w = None \<or> Tawk_LoadStart w = None")
    case True
    then show ?thesis by (simp add: effect_when_unloaded(2))
  next
    case False
    then show ?thesis by (simp add: effect_when_loaded(2))
  qed
qed


lemma example_props_fields:
  "enableErrorHandling example_props" "enableTitleProtection example_props"
  "hideOnRoutes example_props = [js ''/customer'']"
  "\<not> onLoad example_props" "\<not> onError example_props"
  by (simp_all add: example_props_def)

lemma example_first_run:
  "tawk_effect example_props (js ''/customer/orders'') fresh_window =
     (\<lparr>Tawk_API = Some (empty_object\<lparr>proxy_layers := 1\<rparr>), Tawk_LoadStart = Some 0,
        onerror = TawkHandler NoHandler,
        listeners = [(ErrorEvent, TawkErrorListener), (UnhandledRejection, TawkRejectionListener)],
        head_scripts = [\<lparr>src = script_url example_props, captured_hide = True,
                          captured_protect = True, has_onLoad = False, has_onError = False\<rparr>],
        title = js ''Home'', time_ms = 0,
        timers = [\<lparr>timer_id = 1, due = 500, period = Some 500, task = TitleCheck (js ''Home'')\<rparr>],
        timers_created = 1, console = [], callbacks = [],
        trace = [ErrorHandlingInstalled, LoadStartSet 0, ScriptInjected (script_url example_props)]\<rparr>,
      Some 1)"
proof -
  have "shouldHide (hideOnRoutes example_props) (js ''/customer/orders'')"
    by (simp add: example_props_def shouldHide_def startsWith_def js_def)
  then show ?thesis
    by (simp add: effect_defs fresh_window_def example_props_def empty_object_def)
qed

lemma run_task_keeps:
  "timers (run_task t w) = timers w" "timers_created (run_task t w) = timers_created w"
  "Tawk_LoadStart (run_task t w) = Tawk_LoadStart w"
  "Tawk_API w = Some a \<Longrightarrow> \<exists>b. Tawk_API (run_task t w) = Some b"
  by (auto simp: run_task_def hideChatbot_def showChatbot_def title_check_def console_warn_def
      split: task.splits option.splits)

lemma page_step_loaded:
  "Tawk_API w \<noteq> None \<Longrightarrow> Tawk_LoadStart w \<noteq> None \<Longrightarrow>
     Tawk_API (page_step ev w) \<noteq> None \<and> Tawk_LoadStart (page_step ev w) \<noteq> None"
proof (cases ev)
  case (EffectRun p pathname)
  then show ?thesis by (simp add: effect_loaded_after)
next
  case (CleanupRun h)
  assume "Tawk_API w \<noteq> None" "Tawk_LoadStart w \<noteq> None"
  then show ?thesis by (simp add: CleanupRun cleanup_keeps)
next
  case (TimerFired h)
  assume "Tawk_API w \<noteq> None" "Tawk_LoadStart w \<noteq> None"
  then obtain a l where al: "Tawk_API w = Some a" "Tawk_LoadStart w = Some l"
    by auto
  show ?thesis
  proof (cases "filter (\<lambda>t. timer_id t = h) (timers w)")
    case Nil
    with al show ?thesis by (simp add: TimerFired fire_def)
  next
    case (Cons x xs)
    let ?v = "w\<lparr>time_ms := max (time_ms w) (due x)\<rparr>"
    from al have "Tawk_API ?v = Some a" by simp
    then obtain b where "Tawk_API (run_task (task x) ?v) = Some b"
      using run_task_keeps(4) by blast
    with al Cons show ?thesis
      by (simp add: TimerFired fire_def Let_def run_task_keeps(3))
  qed
next
  case (ScriptLoaded el)
  assume "Tawk_API w \<noteq> None" "Tawk_LoadStart w \<noteq> None"
  then show ?thesis
    by (simp add: ScriptLoaded script_onload_def Let_def window_setTimeout_def)
next
  case (ScriptFailed el)
  assume "Tawk_API w \<noteq> None" "Tawk_LoadStart w \<noteq> None"
  then show ?thesis
    by (simp add: ScriptFailed script_onerror_def Let_def console_warn_def)
next
  case (TitleSet t)
  assume "Tawk_API w \<noteq> None" "Tawk_LoadStart w \<noteq> None"
  then show ?thesis by (simp add: TitleSet)
next
  case (ClockSet t)
  assume "Tawk_API w \<noteq> None" "Tawk_LoadStart w \<noteq> None"
  then show ?thesis by (simp add: ClockSet)
qed

lemma run_task_proxy:
  "map_option proxy_layers (Tawk_API (run_task t w)) = map_option proxy_layers (Tawk_API w)"
  by (auto simp: run_task_def hideChatbot_def showChatbot_def title_check_def console_warn_def
      guarded_call_def split: task.splits option.splits entry_point.splits)

lemma run_task_load_state:
  "head_scripts (run_task t w) = head_scripts w" "trace (run_task t w) = trace w"
  "onerror (run_task t w) = onerror w" "listeners (run_task t w) = listeners w"
  by (auto simp: run_task_def hideChatbot_def showChatbot_def title_check_def console_warn_def
      split: task.splits option.splits)

lemma fire_load_state:
  "head_scripts (fire h w) = head_scripts w" "trace (fire h w) = trace w"
  "onerror (fire h w) = onerror w" "listeners (fire h w) = listeners w"
  "Tawk_LoadStart (fire h w) = Tawk_LoadStart w"
  "map_option proxy_layers (Tawk_API (fire h w)) = map_option proxy_layers (Tawk_API w)"
  by (simp_all add: fire_def Let_def run_task_load_state run_task_keeps(3) run_task_proxy
      split: list.splits)

lemma page_step_load_state:
  assumes "Tawk_API w \<noteq> None" and "Tawk_LoadStart w \<noteq> None"
  shows "head_scripts (page_step ev w) = head_scripts w"
    and "Tawk_LoadStart (page_step ev w) = Tawk_LoadStart w"
    and "trace (page_step ev w) = trace w"
    and "onerror (page_step ev w) = onerror w"
    and "listeners (page_step ev w) = listeners w"
    and "map_option proxy_layers (Tawk_API (page_step ev w)) =
           map_option proxy_layers (Tawk_API w)"
  using assms
  by (cases ev; simp add: effect_when_loaded cleanup_keeps fire_load_state script_onload_def
      script_onerror_def window_setTimeout_def console_warn_def Let_def)+

lemma page_run_load_state:
  assumes "Tawk_API w \<noteq> None" and "Tawk_LoadStart w \<noteq> None"
  shows "Tawk_API (fold page_step evs w) \<noteq> None \<and> Tawk_LoadStart (fold page_step evs w) \<noteq> None
       \<and> head_scripts (fold page_step evs w) = head_scripts w
       \<and> Tawk_LoadStart (fold page_step evs w) = Tawk_LoadStart w
       \<and> trace (fold page_step evs w) = trace w
       \<and> onerror (fold page_step evs w) = onerror w
       \<and> listeners (fold page_step evs w) = listeners w
       \<and> map_option proxy_layers (Tawk_API (fold page_step evs w)) =
           map_option proxy_layers (Tawk_API w)"
  using assms
proof (induction evs arbitrary: w)
  case Nil
  then show ?case by simp
next
  case (Cons ev evs)
  note l = page_step_loaded [OF Cons.prems, of ev]
  from l have l1: "Tawk_API (page_step ev w) \<noteq> None"
    and l2: "Tawk_LoadStart (page_step ev w) \<noteq> None"
    by blast+
  from Cons.IH [OF l1 l2] page_step_load_state [OF Cons.prems, of ev] Cons.prems(2)
  show ?case by simp
qed

text \<open>
  C2. In a process where the widget has not been loaded (one of the two globals is unset),
  the first run of the effect appends exactly one script to the head, sets
  \<open>Tawk_LoadStart\<close> to the current time and records these two load side effects.
  Whatever happens on the page afterwards (time passing, timers firing, the script loading
  or failing, cleanups, further runs of the effect), a second run, by another mounted
  instance or by the same instance after its cleanup, with any props and path, appends no
  script, leaves \<open>Tawk_LoadStart\<close> as it is and records no load side effect: the page has
  one injected script and one setting of the marker.
\<close>

theorem C2_load_sequence_runs_once:
  fixes w :: window and pa pb :: props and patha pathb :: jsstring and evs :: "page_event list"
  defines "first \<equiv> fst (tawk_effect pa patha w)"
  defines "later \<equiv> fold page_step evs first"
  defines "second \<equiv> fst (tawk_effect pb pathb later)"
  assumes "Tawk_API w = None \<or> Tawk_LoadStart w = None"
  shows "head_scripts first =
           head_scripts w @ [\<lparr>src = script_url pa,
              captured_hide = shouldHide (hideOnRoutes pa) patha,
              captured_protect = enableTitleProtection pa,
              has_onLoad = onLoad pa, has_onError = onError pa\<rparr>]
       \<and> Tawk_LoadStart first = Some (time_ms w)
       \<and> trace first =
           trace w @ (if enableErrorHandling pa then [ErrorHandlingInstalled] else [])
             @ [LoadStartSet (time_ms w), ScriptInjected (script_url pa)]
       \<and> head_scripts later = head_scripts first
       \<and> Tawk_LoadStart later = Some (time_ms w)
       \<and> trace later = trace first
       \<and> head_scripts second = head_scripts first
       \<and> Tawk_LoadStart second = Some (time_ms w)
       \<and> trace second = trace first"
proof -
  note u = effect_when_unloaded [OF assms(4), of pa patha, folded first_def]
  have f: "Tawk_API first \<noteq> None" "Tawk_LoadStart first \<noteq> None"
    using u(1,2) by simp_all
  note r = page_run_load_state [OF f, of evs, folded later_def]
  from r have l: "Tawk_API later \<noteq> None" "Tawk_LoadStart later \<noteq> None"
    by blast+
  note s = effect_when_loaded [OF l, of pb pathb, folded second_def]
  from u(2,3,4) r s(2,5,6) show ?thesis
    by simp
qed

theorem C2_load_sequence_witness:
  "Tawk_API fresh_window = None
   \<and> head_scripts (fst (tawk_effect other_props (js ''/'')
        (fold page_step [ClockSet 2000]
           (fst (tawk_effect example_props (js ''/customer/orders'') fresh_window))))) =
       [\<lparr>src = script_url example_props, captured_hide = True, captured_protect = True,
          has_onLoad = False, has_onError = False\<rparr>]
   \<and> Tawk_LoadStart (fst (tawk_effect other_props (js ''/'')
        (fold page_step [ClockSet 2000]
           (fst (tawk_effect example_props (js ''/customer/orders'') fresh_window))))) = Some 0
   \<and> trace (fst (tawk_effect other_props (js ''/'')
        (fold page_step [ClockSet 2000, CleanupRun (Some 1)]
           (fst (tawk_effect example_props (js ''/customer/orders'') fresh_window))))) =
       [ErrorHandlingInstalled, LoadStartSet 0, ScriptInjected (script_url example_props)]"
proof -
  have h: "Tawk_API fresh_window = None \<or> Tawk_LoadStart fresh_window = None"
    by (simp add: fresh_fields)
  show ?thesis
    using C2_load_sequence_runs_once [OF h, where pa = example_props
        and patha = "js ''/customer/orders''" and pb = other_props and pathb = "js ''/''"
        and evs = "[ClockSet 2000]"]
      C2_load_sequence_runs_once [OF h, where pa = example_props
        and patha = "js ''/customer/orders''" and pb = other_props and pathb = "js ''/''"
        and evs = "[ClockSet 2000, CleanupRun (Some 1)]"]
    by (simp add: example_first_run fresh_fields example_props_fields)
qed

lemma setup_twice:
  "onerror (setupErrorHandling (setupErrorHandling w)) = TawkHandler (TawkHandler (onerror w))"
  "listeners (setupErrorHandling (setupErrorHandling w)) =
     listeners w @ [(ErrorEvent, TawkErrorListener), (UnhandledRejection, TawkRejectionListener),
                    (ErrorEvent, TawkErrorListener), (UnhandledRejection, TawkRejectionListener)]"
  by (simp_all add: setupErrorHandling_def Let_def)

text \<open>
  C7, as the claim states it, fails: \<open>setupErrorHandling\<close> has no guard of its own. A
  second call wraps the wrapper and registers a second pair of listeners, and an
  \<open>error\<close> event that matches is then logged twice.
\<close>

theorem C7_double_install_counterexample:
  "onerror (setupErrorHandling (setupErrorHandling fresh_window)) =
     TawkHandler (TawkHandler NoHandler)
   \<and> listeners (setupErrorHandling (setupErrorHandling fresh_window)) =
       [(ErrorEvent, TawkErrorListener), (UnhandledRejection, TawkRejectionListener),
        (ErrorEvent, TawkErrorListener), (UnhandledRejection, TawkRejectionListener)]
   \<and> warned (dispatch_error (listeners (setupErrorHandling fresh_window))
        \<lparr>ev_message = js ''i18next'', ev_filename = []\<rparr> untouched) =
       [ErrorPrevented (js ''i18next'')]
   \<and> warned (dispatch_error (listeners (setupErrorHandling (setupErrorHandling fresh_window)))
        \<lparr>ev_message = js ''i18next'', ev_filename = []\<rparr> untouched) =
       [ErrorPrevented (js ''i18next''), ErrorPrevented (js ''i18next'')]"
  by (simp add: setupErrorHandling_def Let_def fresh_window_def error_listener_def untouched_def
      js_def startsWith_def)

text \<open>
  C7, amended. \<open>setupErrorHandling\<close> itself is not idempotent: every call wraps
  \<open>window.onerror\<close> once more and registers another pair of listeners. The component
  calls it only inside the load guard, so within one process a second run of the effect
  (by another instance or by the same one after its cleanup, with any props, after
  anything that can happen on the page in between) installs nothing: \<open>window.onerror\<close>,
  the listeners, the number of proxies around \<open>window.Tawk_API\<close> and the record of
  installations are as the first run left them, and the first run installed the layer at
  most once.
\<close>

theorem C7_install_guarded_by_load:
  fixes w :: window and pa pb :: props and patha pathb :: jsstring and evs :: "page_event list"
  defines "first \<equiv> fst (tawk_effect pa patha w)"
  defines "later \<equiv> fold page_step evs first"
  defines "second \<equiv> fst (tawk_effect pb pathb later)"
  shows "onerror (setupErrorHandling (setupErrorHandling w)) =
           TawkHandler (TawkHandler (onerror w))
       \<and> listeners (setupErrorHandling (setupErrorHandling w)) =
           listeners w @ [(ErrorEvent, TawkErrorListener),
                          (UnhandledRejection, TawkRejectionListener),
                          (ErrorEvent, TawkErrorListener),
                          (UnhandledRejection, TawkRejectionListener)]
       \<and> onerror later = onerror first \<and> listeners later = listeners first
       \<and> map_option proxy_layers (Tawk_API later) = map_option proxy_layers (Tawk_API first)
       \<and> trace later = trace first
       \<and> onerror second = onerror first \<and> listeners second = listeners first
       \<and> map_option proxy_layers (Tawk_API second) = map_option proxy_layers (Tawk_API first)
       \<and> trace second = trace first
       \<and> (Tawk_API w = None \<or> Tawk_LoadStart w = None \<longrightarrow>
            onerror first =
              (if enableErrorHandling pa then TawkHandler (onerror w) else onerror w)
          \<and> listeners first =
              listeners w @ (if enableErrorHandling pa
                             then [(ErrorEvent, TawkErrorListener),
                                   (UnhandledRejection, TawkRejectionListener)]
                             else []))
       \<and> (Tawk_API w \<noteq> None \<and> Tawk_LoadStart w \<noteq> None \<longrightarrow>
            onerror first = onerror w \<and> listeners first = listeners w)"
proof -
  have f: "Tawk_API first \<noteq> None" "Tawk_LoadStart first \<noteq> None"
    unfolding first_def by (rule effect_loaded_after)+
  note r = page_run_load_state [OF f, of evs, folded later_def]
  from r have l: "Tawk_API later \<noteq> None" "Tawk_LoadStart later \<noteq> None"
    by blast+
  note s = effect_when_loaded [OF l, of pb pathb, folded second_def]
  have n: "Tawk_API w = None \<or> Tawk_LoadStart w = None \<longrightarrow>
            onerror first =
              (if enableErrorHandling pa then TawkHandler (onerror w) else onerror w)
          \<and> listeners first =
              listeners w @ (if enableErrorHandling pa
                             then [(ErrorEvent, TawkErrorListener),
                                   (UnhandledRejection, TawkRejectionListener)]
                             else [])"
    unfolding first_def using effect_when_unloaded(5,6) [of w pa patha] by blast
  have y: "Tawk_API w \<noteq> None \<and> Tawk_LoadStart w \<noteq> None \<longrightarrow>
            onerror first = onerror w \<and> listeners first = listeners w"
    unfolding first_def using effect_when_loaded(3,4) [of w pa patha] by blast
  from setup_twice [of w] r s(1,3,4,6) n y show ?thesis
    by simp
qed

theorem C7_install_guarded_witness:
  "Tawk_API fresh_window = None
   \<and> onerror (fst (tawk_effect other_props (js ''/'')
        (fold page_step [ClockSet 2000]
           (fst (tawk_effect example_props (js ''/customer/orders'') fresh_window))))) =
       TawkHandler NoHandler
   \<and> listeners (fst (tawk_effect other_props (js ''/'')
        (fold page_step [ClockSet 2000, CleanupRun (Some 1)]
           (fst (tawk_effect example_props (js ''/customer/orders'') fresh_window))))) =
       [(ErrorEvent, TawkErrorListener), (UnhandledRejection, TawkRejectionListener)]"
proof -
  have h: "Tawk_API fresh_window = None"
    by (simp add: fresh_fields)
  show ?thesis
    using h
      C7_install_guarded_by_load [where w = fresh_window and pa = example_props
        and patha = "js ''/customer/orders''" and pb = other_props and pathb = "js ''/''"
        and evs = "[ClockSet 2000]"]
      C7_install_guarded_by_load [where w = fresh_window and pa = example_props
        and patha = "js ''/customer/orders''" and pb = other_props and pathb = "js ''/''"
        and evs = "[ClockSet 2000, CleanupRun (Some 1)]"]
    by (simp add: example_first_run fresh_fields example_props_fields)
qed

section \<open>The title watchdog: the claims\<close>






























end
